theory Spec2Isabelle
  imports Complex_Main "HOL-Library.Sublist" "HOL-Library.Log_Nat"
begin

section \<open>JavaScript strings\<close>

text \<open>
  A JavaScript string is modelled as a \<open>string\<close> (a list of characters). An optional
  argument that may be \<open>undefined\<close> is a \<open>string option\<close>.
\<close>

text \<open>\<open>s.endsWith(suf)\<close>\<close>

definition endsWith :: "string \<Rightarrow> string \<Rightarrow> bool" where
  "endsWith s suf = suffix suf s"

text \<open>\<open>s.split("_")[0]\<close>: the part of \<open>s\<close> before its first underscore (all of \<open>s\<close>
  when it has none). The source calls it the migration's timestamp.\<close>

definition split_0 :: "string \<Rightarrow> string" where
  "split_0 s = takeWhile (\<lambda>c. c \<noteq> CHR ''_'') s"

text \<open>\<open>a <= b\<close> on two strings: lexicographic comparison of the code units, a proper
  prefix being smaller.\<close>

fun str_le :: "string \<Rightarrow> string \<Rightarrow> bool" where
  "str_le [] b = True"
| "str_le (x # a) [] = False"
| "str_le (x # a) (y # b) =
     (if x = y then str_le a b else (of_char x :: nat) < of_char y)"

text \<open>\<open>s.replace(pat, rep)\<close> with a string pattern: only the first occurrence of
  \<open>pat\<close> is replaced. (The replacement strings of this program contain no \<open>$\<close>, so
  they are inserted literally.)\<close>

fun replace :: "string \<Rightarrow> string \<Rightarrow> string \<Rightarrow> string" where
  "replace [] pat rep = (if pat = [] then rep else [])"
| "replace (c # s) pat rep =
     (if prefix pat (c # s) then rep @ drop (length pat) (c # s)
      else c # replace s pat rep)"

text \<open>The number of positions of \<open>s\<close> at which \<open>pat\<close> occurs.\<close>

fun occurrences :: "string \<Rightarrow> string \<Rightarrow> nat" where
  "occurrences pat [] = 0"
| "occurrences pat (c # s) = (if prefix pat (c # s) then 1 else 0) + occurrences pat s"

text \<open>The truthiness test \<open>if (migrationTimestamp)\<close> on an optional string:
  \<open>undefined\<close> and the empty string are falsy.\<close>

fun truthy :: "string option \<Rightarrow> bool" where
  "truthy None = False"
| "truthy (Some s) = (s \<noteq> [])"

subsection \<open>Sorting with a comparator\<close>

text \<open>
  \<open>xs.sort(cmp)\<close> is a stable sort: \<open>x\<close> stays before \<open>y\<close> unless \<open>cmp x y > 0\<close>.
  It is modelled by a stable insertion sort; for a consistent comparator every stable sort
  returns this list.
\<close>

fun insert_by :: "('a \<Rightarrow> 'a \<Rightarrow> int) \<Rightarrow> 'a \<Rightarrow> 'a list \<Rightarrow> 'a list" where
  "insert_by cmp x [] = [x]"
| "insert_by cmp x (y # ys) =
     (if cmp x y \<le> 0 then x # y # ys else y # insert_by cmp x ys)"

definition Array_sort :: "('a \<Rightarrow> 'a \<Rightarrow> int) \<Rightarrow> 'a list \<Rightarrow> 'a list" where
  "Array_sort cmp xs = foldr (insert_by cmp) xs []"

text \<open>
  \<open>a.localeCompare(b)\<close> depends on the locale of the process, so the functions that sort
  take it as the parameter \<open>localeCompare\<close>. What a comparator must satisfy for a sort
  to be defined: any two elements are comparable, and the order is transitive.
\<close>

definition consistent :: "('a \<Rightarrow> 'a \<Rightarrow> int) \<Rightarrow> bool" where
  "consistent cmp \<longleftrightarrow>
     (\<forall>a b. cmp a b \<le> 0 \<or> cmp b a \<le> 0) \<and>
     (\<forall>a b c. cmp a b \<le> 0 \<and> cmp b c \<le> 0 \<longrightarrow> cmp a c \<le> 0)"

text \<open>The comparison by code units, one consistent comparator.\<close>

definition codeUnitCompare :: "string \<Rightarrow> string \<Rightarrow> int" where
  "codeUnitCompare a b = (if a = b then 0 else if str_le a b then - 1 else 1)"

subsection \<open>\<open>Number(s)\<close> on a string\<close>

text \<open>
  A JavaScript number is a double: not-a-number, an infinity, or a finite value, kept
  here as the rational it denotes (the two zeros are one value, which \<open>>=\<close> cannot tell
  apart).
\<close>

datatype jsnum = NaN | NegInf | Fin rat | PosInf

text \<open>\<open>a >= b\<close> on two numbers: false as soon as one is \<open>NaN\<close>.\<close>

fun num_ge :: "jsnum \<Rightarrow> jsnum \<Rightarrow> bool" where
  "num_ge NaN b = False"
| "num_ge a NaN = False"
| "num_ge PosInf b = True"
| "num_ge a NegInf = True"
| "num_ge NegInf b = False"
| "num_ge a PosInf = False"
| "num_ge (Fin x) (Fin y) = (y \<le> x)"

fun negate :: "jsnum \<Rightarrow> jsnum" where
  "negate NaN = NaN"
| "negate NegInf = PosInf"
| "negate PosInf = NegInf"
| "negate (Fin x) = Fin (- x)"

text \<open>White space and line terminators that \<open>Number\<close> strips at both ends.\<close>

definition isStrWhiteSpaceChar :: "char \<Rightarrow> bool" where
  "isStrWhiteSpaceChar c = ((of_char c :: nat) \<in> {9, 10, 11, 12, 13, 32, 160})"

definition trim :: "string \<Rightarrow> string" where
  "trim s = rev (dropWhile isStrWhiteSpaceChar (rev (dropWhile isStrWhiteSpaceChar s)))"

definition digitValue :: "char \<Rightarrow> nat option" where
  "digitValue c =
     (let n = (of_char c :: nat) in
      if 48 \<le> n \<and> n \<le> 57 then Some (n - 48)
      else if 97 \<le> n \<and> n \<le> 102 then Some (n - 87)
      else if 65 \<le> n \<and> n \<le> 70 then Some (n - 55)
      else None)"

definition isDigit :: "nat \<Rightarrow> char \<Rightarrow> bool" where
  "isDigit base c = (case digitValue c of None \<Rightarrow> False | Some v \<Rightarrow> v < base)"

definition digitsValue :: "nat \<Rightarrow> string \<Rightarrow> nat" where
  "digitsValue base s =
     foldl (\<lambda>n c. base * n + (case digitValue c of None \<Rightarrow> 0 | Some v \<Rightarrow> v)) 0 s"

definition pow2 :: "int \<Rightarrow> rat" where
  "pow2 k = (if 0 \<le> k then 2 ^ nat k else 1 / 2 ^ nat (- k))"

text \<open>Numerator and denominator of \<open>(p / q) / 2^k\<close>.\<close>

definition scale2 :: "nat \<Rightarrow> nat \<Rightarrow> int \<Rightarrow> nat \<times> nat" where
  "scale2 p q k = (if 0 \<le> k then (p, q * 2 ^ nat k) else (p * 2 ^ nat (- k), q))"

text \<open>The binary exponent of \<open>p / q\<close>, for positive \<open>p\<close> and \<open>q\<close>.\<close>

definition floor_log2 :: "nat \<Rightarrow> nat \<Rightarrow> int" where
  "floor_log2 p q =
     (let d = int (floorlog 2 p) - int (floorlog 2 q);
          (n, m) = scale2 p q d
      in if m \<le> n then d else d - 1)"

text \<open>The double nearest to \<open>p / q\<close>, ties to the even significand: 53 significant bits,
  least exponent \<open>-1074\<close>, infinity from \<open>2^1024\<close> on.\<close>

definition roundToDouble :: "nat \<Rightarrow> nat \<Rightarrow> jsnum" where
  "roundToDouble p q =
     (if p = 0 then Fin 0
      else
        let k = max (floor_log2 p q - 52) (- 1074);
            (num, den) = scale2 p q k;
            n = num div den;
            r = num mod den;
            m = (if den < 2 * r \<or> (2 * r = den \<and> odd n) then n + 1 else n)
        in if 1024 < int (floorlog 2 m) + k then PosInf else Fin (of_nat m * pow2 k))"

definition decimalValue :: "nat \<Rightarrow> int \<Rightarrow> jsnum" where
  "decimalValue m e =
     (if 0 \<le> e then roundToDouble (m * 10 ^ nat e) 1 else roundToDouble m (10 ^ nat (- e)))"

definition SignedInteger :: "string \<Rightarrow> int option" where
  "SignedInteger s =
     (let (neg, ds) = (case s of
                         c # r \<Rightarrow> if c = CHR ''-'' then (True, r)
                                  else if c = CHR ''+'' then (False, r) else (False, s)
                       | [] \<Rightarrow> (False, s))
      in if ds \<noteq> [] \<and> list_all (isDigit 10) ds
         then Some (if neg then - int (digitsValue 10 ds) else int (digitsValue 10 ds))
         else None)"

definition ExponentPart :: "string \<Rightarrow> int option" where
  "ExponentPart s =
     (case s of
        [] \<Rightarrow> Some 0
      | c # r \<Rightarrow> if c = CHR ''e'' \<or> c = CHR ''E'' then SignedInteger r else None)"

definition StrUnsignedDecimalLiteral :: "string \<Rightarrow> jsnum" where
  "StrUnsignedDecimalLiteral s =
     (if s = ''Infinity'' then PosInf
      else
        let ip = takeWhile (isDigit 10) s;
            r1 = dropWhile (isDigit 10) s;
            (fp, r2) = (case r1 of
                          [] \<Rightarrow> ([], r1)
                        | c # r \<Rightarrow> if c = CHR ''.''
                                   then (takeWhile (isDigit 10) r, dropWhile (isDigit 10) r)
                                   else ([], r1))
        in if ip = [] \<and> fp = [] then NaN
           else case ExponentPart r2 of
                  None \<Rightarrow> NaN
                | Some e \<Rightarrow> decimalValue (digitsValue 10 (ip @ fp)) (e - int (length fp)))"

definition NonDecimalIntegerLiteral :: "nat \<Rightarrow> string \<Rightarrow> jsnum" where
  "NonDecimalIntegerLiteral base ds =
     (if ds \<noteq> [] \<and> list_all (isDigit base) ds
      then roundToDouble (digitsValue base ds) 1 else NaN)"

text \<open>\<open>Number(str)\<close>: the value of \<open>str\<close> read as a numeric literal (decimal with an
  optional sign, fraction and exponent, \<open>Infinity\<close>, or an unsigned binary, octal or
  hexadecimal integer) between optional white space; \<open>0\<close> for a blank string; \<open>NaN\<close>
  for anything else.\<close>

definition Number :: "string \<Rightarrow> jsnum" where
  "Number str =
     (let s = trim str in
      if s = [] then Fin 0
      else if prefix ''0x'' s \<or> prefix ''0X'' s then NonDecimalIntegerLiteral 16 (drop 2 s)
      else if prefix ''0o'' s \<or> prefix ''0O'' s then NonDecimalIntegerLiteral 8 (drop 2 s)
      else if prefix ''0b'' s \<or> prefix ''0B'' s then NonDecimalIntegerLiteral 2 (drop 2 s)
      else if prefix ''-'' s then negate (StrUnsignedDecimalLiteral (drop 1 s))
      else if prefix ''+'' s then StrUnsignedDecimalLiteral (drop 1 s)
      else StrUnsignedDecimalLiteral s)"

section \<open>functional.js\<close>

definition composePredicates :: "('a \<Rightarrow> bool) list \<Rightarrow> 'a \<Rightarrow> bool" where
  "composePredicates predicates input = list_all (\<lambda>pred. pred input) predicates"

section \<open>The process and its PostgreSQL connection\<close>

text \<open>
  The state of the database is the set of relations that migration scripts have
  created, and the rows of the bookkeeping table \<open>migrations\<close> (the \<open>filename\<close> column,
  in insertion order), \<open>None\<close> while that table does not exist.
\<close>

record database =
  relations :: "string set"
  migrations_table :: "string list option"

text \<open>
  The content of a migration file is an SQL script without transaction control; the
  server runs it as one unit, so it is modelled by its effect on the database, \<open>None\<close>
  when a statement of it fails.
\<close>

type_synonym script = "database \<Rightarrow> database option"

text \<open>Two scripts, as the migration files of the repository's tests have them:
  \<open>CREATE TABLE name (...)\<close> fails when the table exists, \<open>DROP TABLE name\<close> when it
  does not.\<close>

definition CREATE_TABLE :: "string \<Rightarrow> script" where
  "CREATE_TABLE name d =
     (if name \<in> relations d then None
      else Some (d\<lparr>relations := insert name (relations d)\<rparr>))"

definition DROP_TABLE :: "string \<Rightarrow> script" where
  "DROP_TABLE name d =
     (if name \<in> relations d then Some (d\<lparr>relations := relations d - {name}\<rparr>)
      else None)"

text \<open>The queries this program sends.\<close>

datatype query =
    BEGIN
  | COMMIT
  | ROLLBACK
  | Sql script
  | INSERT_INTO_migrations string
  | DELETE_FROM_migrations string
  | SELECT_filename_FROM_migrations
  | SELECT_EXISTS_migrations
  | CREATE_TABLE_migrations

datatype result = Done | Rows "string list" | Exists bool

text \<open>The transaction status of the connection: no transaction block, a block with its
  uncommitted database state, or a block that a failed statement has aborted.\<close>

datatype transaction = Idle | InTransaction database | Aborted

text \<open>What is thrown.\<close>

datatype error =
    ClientNotProvided
  | ClientOrFilenameNotProvided
  | InvalidMigrationFile
  | ENOENT
  | TypeError
  | SqlError
  | InFailedTransaction

text \<open>
  The world the program runs in: the committed state of the database, the transaction
  status of the one connection, every query sent so far, the collation that
  \<open>ORDER BY filename\<close> follows, and the files of the migrations directory in the order
  the directory lists them. What the program prints on the console is left out.
\<close>

record world =
  committed :: database
  status :: transaction
  sent :: "query list"
  collation :: "string \<Rightarrow> string \<Rightarrow> int"
  MIGRATIONS_DIR :: "(string \<times> script) list"

text \<open>The client argument: \<open>null\<close>, or the connected client.\<close>

datatype client = Null | Client

text \<open>An asynchronous function: it changes the world, and returns a value or throws.\<close>

type_synonym 'a io = "world \<Rightarrow> (error + 'a) \<times> world"

definition return :: "'a \<Rightarrow> 'a io" where
  "return x w = (Inr x, w)"

definition throw :: "error \<Rightarrow> 'a io" where
  "throw e w = (Inl e, w)"

text \<open>\<open>x = await m; f(x)\<close>\<close>

definition bind :: "'a io \<Rightarrow> ('a \<Rightarrow> 'b io) \<Rightarrow> 'b io" where
  "bind m f w = (case m w of (Inl e, w') \<Rightarrow> (Inl e, w') | (Inr x, w') \<Rightarrow> f x w')"

text \<open>\<open>try { m } catch (error) { h(error) }\<close>\<close>

definition try_catch :: "'a io \<Rightarrow> (error \<Rightarrow> 'a io) \<Rightarrow> 'a io" where
  "try_catch m h w = (case m w of (Inl e, w') \<Rightarrow> h e w' | (Inr x, w') \<Rightarrow> (Inr x, w'))"

text \<open>\<open>for (const x of xs) { await f(x); }\<close>\<close>

fun for_of :: "'a list \<Rightarrow> ('a \<Rightarrow> unit io) \<Rightarrow> unit io" where
  "for_of [] f = return ()"
| "for_of (x # xs) f = bind (f x) (\<lambda>_. for_of xs f)"

text \<open>The effect of a statement on a database state, \<open>None\<close> when the server rejects it:
  the bookkeeping table is missing (or, for \<open>CREATE TABLE\<close>, is there already), or the
  filename does not fit \<open>VARCHAR(255)\<close>.\<close>

fun statement ::
  "(string \<Rightarrow> string \<Rightarrow> int) \<Rightarrow> query \<Rightarrow> database \<Rightarrow> (database \<times> result) option" where
  "statement coll (Sql f) d = map_option (\<lambda>d'. (d', Done)) (f d)"
| "statement coll (INSERT_INTO_migrations filename) d =
     (case migrations_table d of
        None \<Rightarrow> None
      | Some rows \<Rightarrow>
          if 255 < length filename then None
          else Some (d\<lparr>migrations_table := Some (rows @ [filename])\<rparr>, Done))"
| "statement coll (DELETE_FROM_migrations filename) d =
     (case migrations_table d of
        None \<Rightarrow> None
      | Some rows \<Rightarrow> Some (d\<lparr>migrations_table := Some (filter (\<lambda>r. r \<noteq> filename) rows)\<rparr>, Done))"
| "statement coll SELECT_filename_FROM_migrations d =
     (case migrations_table d of
        None \<Rightarrow> None
      | Some rows \<Rightarrow> Some (d, Rows (Array_sort coll rows)))"
| "statement coll SELECT_EXISTS_migrations d = Some (d, Exists (migrations_table d \<noteq> None))"
| "statement coll CREATE_TABLE_migrations d =
     (case migrations_table d of
        None \<Rightarrow> Some (d\<lparr>migrations_table := Some []\<rparr>, Done)
      | Some rows \<Rightarrow> None)"
| "statement coll q d = Some (d, Done)"

text \<open>
  What the server does with one query, as PostgreSQL documents it. \<open>BEGIN\<close> opens a
  transaction block; inside a block it only warns. \<open>COMMIT\<close> makes the block's state the
  committed state, and \<open>ROLLBACK\<close> drops it; outside a block both only warn, and both
  end an aborted block without committing. A statement outside a block commits by
  itself; inside a block it changes the block's state, and when it fails the block is
  aborted: every further query fails until the block is ended.
\<close>

definition server :: "query \<Rightarrow> result io" where
  "server q w =
     (let w1 = w\<lparr>sent := sent w @ [q]\<rparr> in
      case q of
        BEGIN \<Rightarrow>
          (case status w of
             Idle \<Rightarrow> (Inr Done, w1\<lparr>status := InTransaction (committed w)\<rparr>)
           | InTransaction t \<Rightarrow> (Inr Done, w1)
           | Aborted \<Rightarrow> (Inl InFailedTransaction, w1))
      | COMMIT \<Rightarrow>
          (case status w of
             Idle \<Rightarrow> (Inr Done, w1)
           | InTransaction t \<Rightarrow> (Inr Done, w1\<lparr>committed := t, status := Idle\<rparr>)
           | Aborted \<Rightarrow> (Inr Done, w1\<lparr>status := Idle\<rparr>))
      | ROLLBACK \<Rightarrow> (Inr Done, w1\<lparr>status := Idle\<rparr>)
      | _ \<Rightarrow>
          (case status w of
             Idle \<Rightarrow>
               (case statement (collation w) q (committed w) of
                  None \<Rightarrow> (Inl SqlError, w1)
                | Some (d, r) \<Rightarrow> (Inr r, w1\<lparr>committed := d\<rparr>))
           | InTransaction t \<Rightarrow>
               (case statement (collation w) q t of
                  None \<Rightarrow> (Inl SqlError, w1\<lparr>status := Aborted\<rparr>)
                | Some (d, r) \<Rightarrow> (Inr r, w1\<lparr>status := InTransaction d\<rparr>))
           | Aborted \<Rightarrow> (Inl InFailedTransaction, w1)))"

text \<open>\<open>client.query(q)\<close>; on a \<open>null\<close> client the property access throws.\<close>

fun client_query :: "client \<Rightarrow> query \<Rightarrow> result io" where
  "client_query Null q = throw TypeError"
| "client_query Client q = server q"

section \<open>migrate.utils.js\<close>

definition getAllMigrations :: "string list io" where
  "getAllMigrations w = (Inr (map fst (MIGRATIONS_DIR w)), w)"

definition readMigrationContent :: "string \<Rightarrow> script io" where
  "readMigrationContent filename w =
     (case map_of (MIGRATIONS_DIR w) filename of
        None \<Rightarrow> (Inl ENOENT, w)
      | Some content \<Rightarrow> (Inr content, w))"

definition executeInTransaction :: "client \<Rightarrow> unit io \<Rightarrow> unit io" where
  "executeInTransaction cl action =
     try_catch
       (bind (client_query cl BEGIN) (\<lambda>_.
        bind action (\<lambda>_.
        bind (client_query cl COMMIT) (\<lambda>_.
        return ()))))
       (\<lambda>error. bind (client_query cl ROLLBACK) (\<lambda>_. throw error))"

definition executeSQL :: "client \<Rightarrow> query \<Rightarrow> result io" where
  "executeSQL cl sql =
     try_catch
       (bind (client_query cl BEGIN) (\<lambda>_.
        bind (client_query cl sql) (\<lambda>result.
        bind (client_query cl COMMIT) (\<lambda>_.
        return result))))
       (\<lambda>error. bind (client_query cl ROLLBACK) (\<lambda>_. throw error))"

section \<open>migrate.up.js\<close>

definition APPLY_MIGRATION_FILE_SUFFIX :: string where
  "APPLY_MIGRATION_FILE_SUFFIX = ''.apply.sql''"

text \<open>The \<open>catch\<close> of \<open>getAppliedMigrations\<close>, \<open>handleUp\<close> and \<open>handleDown\<close> logs the
  error and throws it again.\<close>

definition getAppliedMigrations :: "client \<Rightarrow> string list io" where
  "getAppliedMigrations cl =
     (if cl = Null then throw ClientNotProvided
      else try_catch
             (bind (client_query cl SELECT_filename_FROM_migrations) (\<lambda>r.
                case r of Rows rows \<Rightarrow> return rows | _ \<Rightarrow> throw TypeError))
             (\<lambda>error. throw error))"

definition applyMigration :: "client \<Rightarrow> string \<Rightarrow> unit io" where
  "applyMigration cl filename =
     (if cl = Null \<or> filename = [] then throw ClientOrFilenameNotProvided
      else executeInTransaction cl
             (bind (readMigrationContent filename) (\<lambda>migrationContent.
              bind (executeSQL cl (Sql migrationContent)) (\<lambda>_.
              bind (executeSQL cl (INSERT_INTO_migrations filename)) (\<lambda>_.
              return ())))))"

definition filterBeforeOrAtTimestamp :: "string \<Rightarrow> string \<Rightarrow> bool" where
  "filterBeforeOrAtTimestamp migration migrationTimestamp =
     str_le (split_0 migration) migrationTimestamp"

definition determineMigrationsToApply ::
  "string list \<Rightarrow> string list \<Rightarrow> string option \<Rightarrow> string list" where
  "determineMigrationsToApply allMigrations appliedMigrations migrationTimestamp =
     (let appliedMigrationsSet = set appliedMigrations;
          predicates =
            [\<lambda>migration. endsWith migration APPLY_MIGRATION_FILE_SUFFIX,
             \<lambda>migration. migration \<notin> appliedMigrationsSet]
            @ (case migrationTimestamp of
                 None \<Rightarrow> []
               | Some t \<Rightarrow>
                   if truthy (Some t)
                   then [\<lambda>migration. filterBeforeOrAtTimestamp migration t]
                   else [])
      in filter (composePredicates predicates) allMigrations)"

definition applyMigrations ::
  "(string \<Rightarrow> string \<Rightarrow> int) \<Rightarrow> client \<Rightarrow> string list \<Rightarrow> unit io" where
  "applyMigrations localeCompare cl migrationsToApply =
     for_of (Array_sort (\<lambda>a b. localeCompare a b) migrationsToApply)
       (\<lambda>migration. applyMigration cl migration)"

definition handleUp ::
  "(string \<Rightarrow> string \<Rightarrow> int) \<Rightarrow> client \<Rightarrow> string option \<Rightarrow> unit io" where
  "handleUp localeCompare cl migrationTimestamp =
     (if cl = Null then throw ClientNotProvided
      else try_catch
             (bind getAllMigrations (\<lambda>allMigrations.
              bind (getAppliedMigrations cl) (\<lambda>appliedMigrations.
              let migrationsToApply =
                    determineMigrationsToApply allMigrations appliedMigrations
                      migrationTimestamp
              in if length migrationsToApply = 0 then return ()
                 else applyMigrations localeCompare cl migrationsToApply)))
             (\<lambda>error. throw error))"

section \<open>migrate.down.js\<close>

definition REVERT_MIGRATION_FILE_SUFFIX :: string where
  "REVERT_MIGRATION_FILE_SUFFIX = ''.revert.sql''"

definition filterAfterOrAtTimestamp :: "string \<Rightarrow> string \<Rightarrow> bool" where
  "filterAfterOrAtTimestamp migration migrationTimestamp =
     (let migrationTime = split_0 migration
      in num_ge (Number migrationTime) (Number migrationTimestamp))"

definition revertMigration :: "client \<Rightarrow> string \<Rightarrow> unit io" where
  "revertMigration cl filename =
     (if \<not> endsWith filename REVERT_MIGRATION_FILE_SUFFIX then throw InvalidMigrationFile
      else bind (readMigrationContent filename) (\<lambda>migrationContent.
           bind (executeSQL cl (Sql migrationContent)) (\<lambda>_.
           let applyFilename =
                 replace filename REVERT_MIGRATION_FILE_SUFFIX APPLY_MIGRATION_FILE_SUFFIX
           in bind (executeSQL cl (DELETE_FROM_migrations applyFilename)) (\<lambda>_.
              return ()))))"

definition appliedToRevertMigration :: "string \<Rightarrow> string" where
  "appliedToRevertMigration filename = replace filename ''.apply.'' ''.revert.''"

definition determineMigrationsToRevert ::
  "string list \<Rightarrow> string option \<Rightarrow> error + string list" where
  "determineMigrationsToRevert revertMigrations migrationTimestamp =
     (if \<not> list_all (\<lambda>filename. endsWith filename ''.revert.sql'') revertMigrations
      then Inl InvalidMigrationFile
      else case migrationTimestamp of
             None \<Rightarrow> Inr revertMigrations
           | Some t \<Rightarrow>
               if truthy (Some t)
               then Inr (filter (\<lambda>migration. filterAfterOrAtTimestamp migration t)
                           revertMigrations)
               else Inr revertMigrations)"

definition sortMigrationsInDescendingOrder ::
  "(string \<Rightarrow> string \<Rightarrow> int) \<Rightarrow> string list \<Rightarrow> string list" where
  "sortMigrationsInDescendingOrder localeCompare migrations =
     Array_sort
       (\<lambda>a b. let timestampA = split_0 a; timestampB = split_0 b
              in localeCompare timestampB timestampA)
       migrations"

text \<open>The plan that \<open>handleDown\<close> computes from the applied filenames.\<close>

definition migrationsToRevert ::
  "(string \<Rightarrow> string \<Rightarrow> int) \<Rightarrow> string list \<Rightarrow> string option \<Rightarrow> error + string list" where
  "migrationsToRevert localeCompare appliedMigrations migrationTimestamp =
     (let sortedAppliedMigrations =
            sortMigrationsInDescendingOrder localeCompare appliedMigrations;
          allRevertMigrations = map appliedToRevertMigration sortedAppliedMigrations
      in determineMigrationsToRevert allRevertMigrations migrationTimestamp)"

definition handleDown ::
  "(string \<Rightarrow> string \<Rightarrow> int) \<Rightarrow> client \<Rightarrow> string option \<Rightarrow> unit io" where
  "handleDown localeCompare cl migrationTimestamp =
     (if cl = Null then throw ClientNotProvided
      else try_catch
             (bind (getAppliedMigrations cl) (\<lambda>appliedMigrations.
                case migrationsToRevert localeCompare appliedMigrations migrationTimestamp of
                  Inl error \<Rightarrow> throw error
                | Inr toRevert \<Rightarrow>
                    if length toRevert = 0 then return ()
                    else for_of toRevert (\<lambda>migration. revertMigration cl migration)))
             (\<lambda>error. throw error))"

section \<open>migrate.setup.js\<close>

definition doesMigrationsTableExist :: "client \<Rightarrow> bool io" where
  "doesMigrationsTableExist cl =
     bind (client_query cl SELECT_EXISTS_migrations) (\<lambda>result.
       case result of Exists b \<Rightarrow> return b | _ \<Rightarrow> throw TypeError)"

definition createMigrationsTable :: "client \<Rightarrow> result io" where
  "createMigrationsTable cl = executeSQL cl CREATE_TABLE_migrations"

definition handleSetup :: "client \<Rightarrow> unit io" where
  "handleSetup cl =
     bind (doesMigrationsTableExist cl) (\<lambda>exists.
       if exists then return ()
       else bind (createMigrationsTable cl) (\<lambda>_. return ()))"

section \<open>migrate.js\<close>

text \<open>
  \<open>main\<close> connects a new client, dispatches on the command line \<open>argv\<close> (the arguments
  after the script name), logs whatever a handler throws, and ends the connection, which
  drops a transaction block left open. \<open>handleGenerate\<close> writes two placeholder files
  and sends no query; it is a parameter here.
\<close>

definition getClient :: "client io" where
  "getClient w = (Inr Client, w\<lparr>status := Idle\<rparr>)"

definition closeClient :: "client \<Rightarrow> unit io" where
  "closeClient cl w = (Inr (), w\<lparr>status := Idle\<rparr>)"

definition argument :: "string list \<Rightarrow> nat \<Rightarrow> string option" where
  "argument argv i = (if i < length argv then Some (argv ! i) else None)"

definition main ::
  "(string \<Rightarrow> string \<Rightarrow> int) \<Rightarrow> (string option \<Rightarrow> unit io) \<Rightarrow> string list \<Rightarrow> unit io" where
  "main localeCompare handleGenerate argv =
     bind getClient (\<lambda>cl.
     bind (try_catch
             (let command = argument argv 0;
                  option = argument argv 1;
                  migrationTimestamp = argument argv 2
              in if command = Some ''setup'' then handleSetup cl
                 else if command = Some ''generate'' then handleGenerate option
                 else if command = Some ''up'' then handleUp localeCompare cl option
                 else if command = Some ''down'' then handleDown localeCompare cl None
                 else return ())
             (\<lambda>error. return ())) (\<lambda>_.
     closeClient cl))"

section \<open>Facts about string comparison and sorting\<close>

lemma str_le_refl: "str_le a a"
  by (induction a) auto

lemma str_le_total: "str_le a b \<or> str_le b a"
  by (induction a b rule: str_le.induct) (auto simp: less_le_not_le dest: of_char_eq_iff[THEN iffD1])

lemma str_le_trans: "str_le a b \<Longrightarrow> str_le b c \<Longrightarrow> str_le a c"
proof (induction a b arbitrary: c rule: str_le.induct)
  case (1 b)
  then show ?case by simp
next
  case (2 x a)
  then show ?case by simp
next
  case (3 x a y b)
  then show ?case by (cases c) (auto split: if_splits)
qed

lemma str_le_Nil: "str_le b [] \<longleftrightarrow> b = []"
  by (cases b) auto

lemma str_le_antisym: "str_le a b \<Longrightarrow> str_le b a \<Longrightarrow> a = b"
  by (induction a b rule: str_le.induct) (auto simp: str_le_Nil split: if_splits)

lemma consistent_codeUnitCompare: "consistent codeUnitCompare"
  unfolding consistent_def codeUnitCompare_def
  using str_le_total str_le_trans str_le_antisym
  by (auto split: if_splits)

lemma set_insert_by: "set (insert_by cmp x ys) = insert x (set ys)"
  by (induction ys) auto

lemma set_Array_sort: "set (Array_sort cmp xs) = set xs"
  by (induction xs) (auto simp: Array_sort_def set_insert_by)

lemma length_insert_by: "length (insert_by cmp x ys) = Suc (length ys)"
  by (induction ys) auto

lemma sorted_insert_by:
  assumes "consistent cmp" "sorted_wrt (\<lambda>a b. cmp a b \<le> 0) ys"
  shows "sorted_wrt (\<lambda>a b. cmp a b \<le> 0) (insert_by cmp x ys)"
  using assms(2)
proof (induction ys)
  case Nil
  then show ?case by simp
next
  case (Cons y ys)
  from assms(1) have tot: "\<And>a b. cmp a b \<le> 0 \<or> cmp b a \<le> 0"
    and tr: "\<And>a b c. cmp a b \<le> 0 \<Longrightarrow> cmp b c \<le> 0 \<Longrightarrow> cmp a c \<le> 0"
    unfolding consistent_def by blast+
  show ?case
  proof (cases "cmp x y \<le> 0")
    case True
    with Cons.prems tr show ?thesis by auto
  next
    case False
    then have "cmp y x \<le> 0" using tot by blast
    with False Cons show ?thesis by (auto simp: set_insert_by)
  qed
qed

lemma sorted_Array_sort:
  "consistent cmp \<Longrightarrow> sorted_wrt (\<lambda>a b. cmp a b \<le> 0) (Array_sort cmp xs)"
  by (induction xs) (auto simp: Array_sort_def intro: sorted_insert_by [unfolded Array_sort_def])

section \<open>Facts about the replacement of the first occurrence\<close>

lemma occurrences_suffix_pos:
  "0 < occurrences (d # a) (xs @ (d # a) @ ys)"
  by (induction xs) auto

lemma replace_at_front:
  "pat \<noteq> [] \<Longrightarrow> replace (pat @ r) pat rep = rep @ r"
  by (cases pat) simp_all

lemma replace_gap:
  assumes "d \<notin> set u"
  shows "prefix (u @ [d]) (replace s (d # a) (d # r)) \<Longrightarrow>
         prefix (u @ [d]) s \<or> prefix (u @ d # a) s"
  using assms
proof (induction u arbitrary: s)
  case Nil
  then show ?case by (cases s) (auto split: if_splits)
next
  case (Cons b u)
  then have bd: "b \<noteq> d" and du: "d \<notin> set u" by auto
  show ?case
  proof (cases s)
    case Nil
    with Cons.prems show ?thesis by simp
  next
    case s: (Cons x s1)
    show ?thesis
    proof (cases "prefix (d # a) s")
      case True
      with Cons.prems(1) s bd show ?thesis by auto
    next
      case False
      with Cons.prems(1) s have "x = b" "prefix (u @ [d]) (replace s1 (d # a) (d # r))"
        by auto
      then have "prefix (u @ [d]) s1 \<or> prefix (u @ d # a) s1"
        using Cons.IH du by blast
      with \<open>x = b\<close> s show ?thesis by auto
    qed
  qed
qed

lemma replace_no_early:
  assumes "d \<notin> set u"
    and "\<not> prefix (d # u @ [d]) (c # s)" and "\<not> prefix (d # a) (c # s)"
  shows "\<not> prefix (d # u @ [d]) (c # replace s (d # a) (d # u @ [d]))"
proof
  assume "prefix (d # u @ [d]) (c # replace s (d # a) (d # u @ [d]))"
  then have c: "c = d" and "prefix (u @ [d]) (replace s (d # a) (d # u @ [d]))"
    by auto
  then have "prefix (u @ [d]) s \<or> prefix (u @ d # a) s"
    using replace_gap [OF assms(1)] by blast
  moreover have "prefix (u @ d # a) s \<Longrightarrow> prefix (u @ [d]) s"
    using append_prefixD [of "u @ [d]" a s] by simp
  ultimately have "prefix (u @ [d]) s" by blast
  with c assms(2) show False by simp
qed

lemma replace_roundtrip_gen:
  assumes "d \<notin> set u"
  shows "occurrences (d # u @ [d]) f = 0 \<Longrightarrow>
   replace (replace f (d # a) (d # u @ [d])) (d # u @ [d]) (d # a) = f"
proof (induction f)
  case Nil
  then show ?case by simp
next
  case (Cons c s)
  define A where "A = d # a"
  define R where "R = d # u @ [d]"
  have AR: "A \<noteq> []" "R \<noteq> []" by (simp_all add: A_def R_def)
  from Cons.prems have nr: "\<not> prefix R (c # s)" and o: "occurrences R s = 0"
    unfolding R_def by (simp_all split: if_splits)
  have IH: "replace (replace s A R) R A = s"
    using Cons.IH o unfolding A_def R_def by simp
  show ?case
  proof (cases "prefix A (c # s)")
    case True
    then obtain r where r: "c # s = A @ r" by (auto simp: prefix_def)
    have "replace (replace (c # s) A R) R A = A @ r"
      using AR by (simp add: r replace_at_front)
    with r show ?thesis unfolding A_def R_def by simp
  next
    case False
    have "\<not> prefix R (c # replace s A R)"
      using replace_no_early [OF assms] nr False unfolding A_def R_def by blast
    then have "replace (replace (c # s) A R) R A = c # replace (replace s A R) R A"
      using False by simp
    with IH show ?thesis unfolding A_def R_def by simp
  qed
qed

lemma replace_roundtrip:
  "occurrences ''.revert.'' f = 0 \<Longrightarrow>
   replace (replace f ''.apply.'' ''.revert.'') ''.revert.'' ''.apply.'' = f"
  using replace_roundtrip_gen [of "CHR ''.''" "''revert''" f "''apply.''"] by simp

lemma replace_suffix_roundtrip_gen:
  assumes "d \<notin> set u"
  shows "occurrences (d # a) (x @ (d # a) @ t) = 1 \<Longrightarrow>
   occurrences (d # u @ [d]) (x @ (d # a) @ t) = 0 \<Longrightarrow>
   replace (replace (x @ (d # a) @ t) (d # a) (d # u @ [d])) ((d # u @ [d]) @ t) ((d # a) @ t)
     = x @ (d # a) @ t"
proof (induction x)
  case Nil
  define A where "A = d # a"
  define R where "R = d # u @ [d]"
  have "replace (A @ t) A R = R @ t" by (simp add: A_def replace_at_front)
  moreover have "replace ((R @ t) @ []) (R @ t) (A @ t) = (A @ t) @ []"
    by (rule replace_at_front) (simp add: R_def)
  ultimately show ?case unfolding A_def R_def by simp
next
  case (Cons c x)
  define A where "A = d # a"
  define R where "R = d # u @ [d]"
  define f where "f = x @ A @ t"
  have pos: "0 < occurrences A f"
    unfolding A_def f_def by (rule occurrences_suffix_pos)
  from Cons.prems(1) have "occurrences A (c # f) = 1" by (simp add: A_def f_def)
  with pos have na: "\<not> prefix A (c # f)" and o1: "occurrences A f = 1"
    by (auto split: if_splits)
  from Cons.prems(2) have "occurrences R (c # f) = 0" by (simp add: A_def R_def f_def)
  then have nr: "\<not> prefix R (c # f)" and o0: "occurrences R f = 0"
    by (auto split: if_splits)
  have IH: "replace (replace f A R) (R @ t) (A @ t) = f"
    using Cons.IH o1 o0 unfolding A_def R_def f_def by simp
  have "\<not> prefix R (c # replace f A R)"
    using replace_no_early [OF assms] nr na unfolding A_def R_def by blast
  then have "\<not> prefix (R @ t) (c # replace f A R)"
    using append_prefixD by blast
  then have "replace (replace (c # f) A R) (R @ t) (A @ t)
             = c # replace (replace f A R) (R @ t) (A @ t)"
    using na by simp
  with IH have "replace (replace (c # f) A R) (R @ t) (A @ t) = c # f" by simp
  then show ?case unfolding A_def R_def f_def by simp
qed

lemma replace_sql_roundtrip:
  "occurrences ''.apply.'' (x @ ''.apply.sql'') = 1 \<Longrightarrow>
   occurrences ''.revert.'' (x @ ''.apply.sql'') = 0 \<Longrightarrow>
   replace (replace (x @ ''.apply.sql'') ''.apply.'' ''.revert.'') ''.revert.sql'' ''.apply.sql''
     = x @ ''.apply.sql''"
  using replace_suffix_roundtrip_gen [of "CHR ''.''" "''revert''" "''apply.''" x "''sql''"]
  by simp

lemma replace_last_occurrence:
  "occurrences (d # a) (x @ (d # a) @ t) = 1 \<Longrightarrow>
   replace (x @ (d # a) @ t) (d # a) rep = x @ rep @ t"
proof (induction x)
  case Nil
  show ?case using replace_at_front [of "d # a" t rep] by simp
next
  case (Cons c x)
  define A where "A = d # a"
  define f where "f = x @ A @ t"
  have "0 < occurrences A f"
    unfolding A_def f_def by (rule occurrences_suffix_pos)
  moreover from Cons.prems have "occurrences A (c # f) = 1" by (simp add: A_def f_def)
  ultimately have na: "\<not> prefix A (c # f)" and o: "occurrences A f = 1"
    by (auto split: if_splits)
  have "replace f A rep = x @ rep @ t"
    using Cons.IH o unfolding A_def f_def by simp
  with na have "replace (c # f) A rep = c # x @ rep @ t" by simp
  then show ?case unfolding A_def f_def by simp
qed

section \<open>Properties of the up-plan resolver\<close>

lemma determineMigrationsToApply_member:
  "m \<in> set (determineMigrationsToApply allMigrations appliedMigrations ts) \<longleftrightarrow>
     m \<in> set allMigrations \<and> endsWith m ''.apply.sql'' \<and> m \<notin> set appliedMigrations \<and>
     (truthy ts \<longrightarrow> str_le (split_0 m) (the ts))"
  by (cases ts)
     (auto simp: determineMigrationsToApply_def composePredicates_def
        APPLY_MIGRATION_FILE_SUFFIX_def filterBeforeOrAtTimestamp_def)

text \<open>
  C3. Whatever the catalog list, the applied list and the optional boundary, a filename
  returned by \<open>determineMigrationsToApply\<close> is not in the applied list and ends with
  \<open>.apply.sql\<close>; when a boundary is given (a non-empty string, the only value the
  code's test \<open>if (migrationTimestamp)\<close> accepts as a boundary), the part of the
  filename before its first underscore is \<open>\<le>\<close> the boundary as a string.
\<close>

theorem C3_up_plan_sound:
  "m \<in> set (determineMigrationsToApply allMigrations appliedMigrations ts) \<Longrightarrow>
     m \<notin> set appliedMigrations \<and> endsWith m ''.apply.sql'' \<and>
     (\<forall>b. ts = Some b \<and> b \<noteq> [] \<longrightarrow> str_le (split_0 m) b)"
  by (auto simp: determineMigrationsToApply_member)

theorem C3_up_plan_sound_witness:
  "''20230922034400002_create_posts_table.apply.sql''
     \<in> set (determineMigrationsToApply
              [''20230922034400001_create_users_table.apply.sql'',
               ''20230922034400002_create_posts_table.apply.sql'',
               ''20230922034400003_create_comments_table.apply.sql'',
               ''20230922034400004_create_likes_table.apply.sql'']
              [''20230922034400001_create_users_table.apply.sql'']
              (Some ''20230922034400003'')) \<and>
   ''20230922034400002_create_posts_table.apply.sql''
     \<notin> set [''20230922034400001_create_users_table.apply.sql''] \<and>
   endsWith ''20230922034400002_create_posts_table.apply.sql'' ''.apply.sql'' \<and>
   str_le (split_0 ''20230922034400002_create_posts_table.apply.sql'') ''20230922034400003''"
  using C3_up_plan_sound
    [of "''20230922034400002_create_posts_table.apply.sql''"
        "[''20230922034400001_create_users_table.apply.sql'',
          ''20230922034400002_create_posts_table.apply.sql'',
          ''20230922034400003_create_comments_table.apply.sql'',
          ''20230922034400004_create_likes_table.apply.sql'']"
        "[''20230922034400001_create_users_table.apply.sql'']"
        "Some ''20230922034400003''"]
  by (simp add: determineMigrationsToApply_def composePredicates_def
        APPLY_MIGRATION_FILE_SUFFIX_def filterBeforeOrAtTimestamp_def endsWith_def
        split_0_def suffix_to_prefix)

section \<open>The round trip of the filename substitution\<close>

lemma suffix_roundtrip:
  "endsWith f ''.apply.sql'' \<Longrightarrow> occurrences ''.apply.'' f = 1 \<Longrightarrow>
   occurrences ''.revert.'' f = 0 \<Longrightarrow>
     endsWith (appliedToRevertMigration f) REVERT_MIGRATION_FILE_SUFFIX \<and>
     replace (appliedToRevertMigration f) REVERT_MIGRATION_FILE_SUFFIX
       APPLY_MIGRATION_FILE_SUFFIX = f"
proof -
  assume e: "endsWith f ''.apply.sql''" and a: "occurrences ''.apply.'' f = 1"
    and r: "occurrences ''.revert.'' f = 0"
  from e obtain x where f: "f = x @ ''.apply.sql''"
    by (auto simp: endsWith_def suffix_def)
  have "replace (x @ ''.apply.'' @ ''sql'') ''.apply.'' ''.revert.'' = x @ ''.revert.'' @ ''sql''"
    by (rule replace_last_occurrence) (use a f in simp)
  then have "appliedToRevertMigration f = x @ ''.revert.sql''"
    by (simp add: appliedToRevertMigration_def f)
  then have "endsWith (appliedToRevertMigration f) REVERT_MIGRATION_FILE_SUFFIX"
    by (simp add: endsWith_def REVERT_MIGRATION_FILE_SUFFIX_def suffix_def)
  moreover have "replace (appliedToRevertMigration f) REVERT_MIGRATION_FILE_SUFFIX
       APPLY_MIGRATION_FILE_SUFFIX = f"
    using replace_sql_roundtrip [of x] a r
    by (simp add: f appliedToRevertMigration_def REVERT_MIGRATION_FILE_SUFFIX_def
          APPLY_MIGRATION_FILE_SUFFIX_def)
  ultimately show ?thesis by simp
qed

text \<open>
  C10, as amended. For every filename that ends with \<open>.apply.sql\<close>, in which
  \<open>.apply.\<close> occurs exactly once and \<open>.revert.\<close> does not occur,
  \<open>appliedToRevertMigration\<close> gives a name that ends with \<open>.revert.sql\<close> (so
  \<open>revertMigration\<close> accepts it), and the apply name that \<open>revertMigration\<close> derives
  from it, replacing \<open>.revert.sql\<close> by \<open>.apply.sql\<close>, is the original filename. Both
  substitutions replace the first occurrence only, and the identity fails for a slug that
  contains \<open>.apply.\<close>: the name \<open>1_a.apply.b.apply.sql\<close> does not come back.
\<close>

theorem C10_suffix_roundtrip:
  "(endsWith f ''.apply.sql'' \<and> occurrences ''.apply.'' f = 1 \<and>
    occurrences ''.revert.'' f = 0 \<longrightarrow>
      endsWith (appliedToRevertMigration f) REVERT_MIGRATION_FILE_SUFFIX \<and>
      replace (appliedToRevertMigration f) REVERT_MIGRATION_FILE_SUFFIX
        APPLY_MIGRATION_FILE_SUFFIX = f) \<and>
   replace (appliedToRevertMigration ''1_a.apply.b.apply.sql'') REVERT_MIGRATION_FILE_SUFFIX
     APPLY_MIGRATION_FILE_SUFFIX \<noteq> ''1_a.apply.b.apply.sql''"
  using suffix_roundtrip [of f]
  by (simp add: appliedToRevertMigration_def REVERT_MIGRATION_FILE_SUFFIX_def
        APPLY_MIGRATION_FILE_SUFFIX_def)

theorem C10_suffix_roundtrip_witness:
  "endsWith ''20230922034400002_create_posts_table.apply.sql'' ''.apply.sql'' \<and>
   occurrences ''.apply.'' ''20230922034400002_create_posts_table.apply.sql'' = 1 \<and>
   occurrences ''.revert.'' ''20230922034400002_create_posts_table.apply.sql'' = 0 \<and>
   appliedToRevertMigration ''20230922034400002_create_posts_table.apply.sql''
     = ''20230922034400002_create_posts_table.revert.sql'' \<and>
   replace (appliedToRevertMigration ''20230922034400002_create_posts_table.apply.sql'')
     REVERT_MIGRATION_FILE_SUFFIX APPLY_MIGRATION_FILE_SUFFIX
     = ''20230922034400002_create_posts_table.apply.sql''"
  using C10_suffix_roundtrip [of "''20230922034400002_create_posts_table.apply.sql''"]
  by (simp add: endsWith_def suffix_to_prefix appliedToRevertMigration_def)

text \<open>
  The claim as stated, without the suffix \<open>.apply.sql\<close>, fails: \<open>1_a.apply.txt\<close> has
  \<open>.apply.\<close> once and no \<open>.revert.\<close>, its revert name is \<open>1_a.revert.txt\<close>, in
  which \<open>.revert.sql\<close> does not occur, so the second replacement changes nothing and
  the result is not the original filename.
\<close>

theorem C10_counterexample:
  "occurrences ''.apply.'' ''1_a.apply.txt'' = 1 \<and>
   occurrences ''.revert.'' ''1_a.apply.txt'' = 0 \<and>
   appliedToRevertMigration ''1_a.apply.txt'' = ''1_a.revert.txt'' \<and>
   replace (appliedToRevertMigration ''1_a.apply.txt'') REVERT_MIGRATION_FILE_SUFFIX
     APPLY_MIGRATION_FILE_SUFFIX = ''1_a.revert.txt'' \<and>
   replace (appliedToRevertMigration ''1_a.apply.txt'') REVERT_MIGRATION_FILE_SUFFIX
     APPLY_MIGRATION_FILE_SUFFIX \<noteq> ''1_a.apply.txt''"
  by (simp add: appliedToRevertMigration_def REVERT_MIGRATION_FILE_SUFFIX_def
        APPLY_MIGRATION_FILE_SUFFIX_def)

section \<open>The order of the up plan\<close>

text \<open>
  C4, as amended. \<open>determineMigrationsToApply\<close> does not sort: it returns the selected
  filenames in the order of the catalog list (a subsequence of it, hence sorted ascending
  when the catalog list is). The plan is sorted afterwards, in \<open>applyMigrations\<close>, which
  applies the filenames of the plan in the order \<open>sort\<close> with \<open>localeCompare\<close> gives:
  the same filenames, ascending for a consistent \<open>localeCompare\<close>.
\<close>

theorem C4_plan_order:
  "subseq (determineMigrationsToApply allMigrations appliedMigrations ts) allMigrations \<and>
   (sorted_wrt str_le allMigrations \<longrightarrow>
      sorted_wrt str_le (determineMigrationsToApply allMigrations appliedMigrations ts)) \<and>
   applyMigrations localeCompare cl plan
     = for_of (Array_sort localeCompare plan) (applyMigration cl) \<and>
   set (Array_sort localeCompare plan) = set plan \<and>
   (consistent localeCompare \<longrightarrow>
      sorted_wrt (\<lambda>a b. localeCompare a b \<le> 0) (Array_sort localeCompare plan))"
proof -
  have "subseq (determineMigrationsToApply allMigrations appliedMigrations ts) allMigrations"
    by (simp add: determineMigrationsToApply_def Let_def)
  moreover have "sorted_wrt str_le allMigrations \<longrightarrow>
      sorted_wrt str_le (determineMigrationsToApply allMigrations appliedMigrations ts)"
    by (simp add: determineMigrationsToApply_def Let_def sorted_wrt_filter)
  moreover have "applyMigrations localeCompare cl plan
     = for_of (Array_sort localeCompare plan) (applyMigration cl)"
    by (simp add: applyMigrations_def)
  ultimately show ?thesis
    by (simp add: set_Array_sort sorted_Array_sort)
qed


theorem C4_plan_order_witness:
  "sorted_wrt str_le
     [''20230922034400001_create_users_table.apply.sql'',
      ''20230922034400002_create_posts_table.apply.sql'',
      ''20230922034400003_create_comments_table.apply.sql''] \<and>
   sorted_wrt str_le
     (determineMigrationsToApply
        [''20230922034400001_create_users_table.apply.sql'',
         ''20230922034400002_create_posts_table.apply.sql'',
         ''20230922034400003_create_comments_table.apply.sql'']
        [''20230922034400001_create_users_table.apply.sql''] None) \<and>
   consistent codeUnitCompare \<and>
   sorted_wrt (\<lambda>a b. codeUnitCompare a b \<le> 0)
     (Array_sort codeUnitCompare
        [''20230922034400003_create_comments_table.apply.sql'',
         ''20230922034400002_create_posts_table.apply.sql''])"
  using C4_plan_order
    [of "[''20230922034400001_create_users_table.apply.sql'',
          ''20230922034400002_create_posts_table.apply.sql'',
          ''20230922034400003_create_comments_table.apply.sql'']"
        "[''20230922034400001_create_users_table.apply.sql'']" None
        codeUnitCompare Client
        "[''20230922034400003_create_comments_table.apply.sql'',
          ''20230922034400002_create_posts_table.apply.sql'']"]
    consistent_codeUnitCompare
  by simp

text \<open>
  The claim as stated fails: given a catalog list in descending order, the resolver returns
  the two filenames in that order, which is not ascending.
\<close>

theorem C4_counterexample:
  "determineMigrationsToApply
     [''20230922034400002_create_posts_table.apply.sql'',
      ''20230922034400001_create_users_table.apply.sql''] [] None
   = [''20230922034400002_create_posts_table.apply.sql'',
      ''20230922034400001_create_users_table.apply.sql''] \<and>
   \<not> str_le ''20230922034400002_create_posts_table.apply.sql''
            ''20230922034400001_create_users_table.apply.sql''"
  by (simp add: determineMigrationsToApply_def composePredicates_def
        APPLY_MIGRATION_FILE_SUFFIX_def endsWith_def suffix_to_prefix)

section \<open>The suffix self-check of the down path\<close>

text \<open>
  C7. If a filename given to \<open>determineMigrationsToRevert\<close> does not end with
  \<open>.revert.sql\<close>, the resolver throws the error of the self-check, whatever the
  boundary (so also for a filename the boundary would exclude); and \<open>revertMigration\<close>,
  given such a filename, throws that error and leaves the world as it was: no query is
  sent, so nothing in the database changes.
\<close>

theorem C7_suffix_self_check:
  "(filename \<in> set revertMigrations \<and> \<not> endsWith filename ''.revert.sql'' \<longrightarrow>
      determineMigrationsToRevert revertMigrations migrationTimestamp
        = Inl InvalidMigrationFile) \<and>
   (\<not> endsWith filename ''.revert.sql'' \<longrightarrow>
      revertMigration cl filename w = (Inl InvalidMigrationFile, w))"
  by (auto simp: determineMigrationsToRevert_def list_all_iff revertMigration_def
        REVERT_MIGRATION_FILE_SUFFIX_def throw_def)

theorem C7_suffix_self_check_witness:
  "''20230922034400002_create_posts_table.apply.sql''
     \<in> set [''20230922034400003_create_comments_table.revert.sql'',
            ''20230922034400002_create_posts_table.apply.sql''] \<and>
   \<not> endsWith ''20230922034400002_create_posts_table.apply.sql'' ''.revert.sql'' \<and>
   determineMigrationsToRevert
     [''20230922034400003_create_comments_table.revert.sql'',
      ''20230922034400002_create_posts_table.apply.sql'']
     (Some ''20230922034400003'') = Inl InvalidMigrationFile \<and>
   revertMigration Client ''20230922034400002_create_posts_table.apply.sql''
     \<lparr>committed = \<lparr>relations = {''posts''}, migrations_table = Some []\<rparr>, status = Idle,
      sent = [], collation = codeUnitCompare, MIGRATIONS_DIR = []\<rparr>
   = (Inl InvalidMigrationFile,
      \<lparr>committed = \<lparr>relations = {''posts''}, migrations_table = Some []\<rparr>, status = Idle,
       sent = [], collation = codeUnitCompare, MIGRATIONS_DIR = []\<rparr>)"
  using C7_suffix_self_check
    [of "''20230922034400002_create_posts_table.apply.sql''"
        "[''20230922034400003_create_comments_table.revert.sql'',
          ''20230922034400002_create_posts_table.apply.sql'']"
        "Some ''20230922034400003''"
        Client
        "\<lparr>committed = \<lparr>relations = {''posts''}, migrations_table = Some []\<rparr>, status = Idle,
          sent = [], collation = codeUnitCompare, MIGRATIONS_DIR = []\<rparr>"]
  by (simp add: endsWith_def suffix_to_prefix)

section \<open>Facts about the timestamp key\<close>

lemma prefix_takeWhile:
  "prefix p s \<Longrightarrow> \<forall>x\<in>set p. P x \<Longrightarrow> prefix p (takeWhile P s)"
  by (auto simp: prefix_def takeWhile_append2)

lemma split_0_replace:
  assumes "CHR ''_'' \<notin> set pat" "pat \<noteq> []"
  shows "occurrences pat (split_0 f) = 0 \<Longrightarrow> split_0 (replace f pat rep) = split_0 f"
proof (induction f)
  case Nil
  with assms show ?case by (simp add: split_0_def)
next
  case (Cons c s)
  show ?case
  proof (cases "c = CHR ''_''")
    case True
    with assms have "\<not> prefix pat (c # s)" by (cases pat) auto
    with True show ?thesis by (simp add: split_0_def)
  next
    case False
    then have k: "split_0 (c # s) = c # split_0 s" by (simp add: split_0_def)
    with Cons.prems have np: "\<not> prefix pat (c # split_0 s)"
      and o: "occurrences pat (split_0 s) = 0"
      by (auto split: if_splits)
    have "\<not> prefix pat (c # s)"
    proof
      assume "prefix pat (c # s)"
      then have "prefix pat (takeWhile (\<lambda>c. c \<noteq> CHR ''_'') (c # s))"
        using assms(1) by (intro prefix_takeWhile) auto
      with np k show False by (simp add: split_0_def)
    qed
    then have "replace (c # s) pat rep = c # replace s pat rep" by simp
    with False Cons.IH [OF o] show ?thesis by (simp add: split_0_def)
  qed
qed

lemma split_0_appliedToRevertMigration:
  "occurrences ''.apply.'' (split_0 f) = 0 \<Longrightarrow>
   split_0 (appliedToRevertMigration f) = split_0 f"
  unfolding appliedToRevertMigration_def by (rule split_0_replace) simp_all

lemma consistent_descending:
  "consistent cmp \<Longrightarrow> consistent (\<lambda>a b. cmp (key b) (key a))"
  unfolding consistent_def by blast

lemma determineMigrationsToRevert_Inr:
  "determineMigrationsToRevert xs ts = Inr plan \<Longrightarrow>
   \<exists>P. plan = filter P xs"
proof (cases "truthy ts")
  case True
  assume "determineMigrationsToRevert xs ts = Inr plan"
  with True show ?thesis
    by (cases ts) (auto simp: determineMigrationsToRevert_def split: if_splits)
next
  case False
  assume "determineMigrationsToRevert xs ts = Inr plan"
  with False have "plan = filter (\<lambda>_. True) xs"
    by (cases ts) (auto simp: determineMigrationsToRevert_def split: if_splits)
  then show ?thesis by blast
qed

section \<open>The down plan\<close>

text \<open>
  C8, as amended. Let \<open>handleDown\<close> compute a plan from the applied filenames (the
  self-check lets it through). When no applied filename contains \<open>.revert.\<close>, the plan,
  mapped back by substituting \<open>.revert.\<close> with \<open>.apply.\<close>, is a subset of the applied
  list. When \<open>localeCompare\<close> is consistent and no applied filename has \<open>.apply.\<close>
  before its first underscore, the plan is in descending order of timestamp key, in the
  order of \<open>localeCompare\<close>.
\<close>

theorem C8_down_plan:
  assumes "migrationsToRevert localeCompare appliedMigrations migrationTimestamp = Inr plan"
  shows
   "((\<forall>f\<in>set appliedMigrations. occurrences ''.revert.'' f = 0) \<longrightarrow>
       set (map (\<lambda>f. replace f ''.revert.'' ''.apply.'') plan) \<subseteq> set appliedMigrations) \<and>
    (consistent localeCompare \<and>
     (\<forall>f\<in>set appliedMigrations. occurrences ''.apply.'' (split_0 f) = 0) \<longrightarrow>
       sorted_wrt (\<lambda>a b. localeCompare (split_0 b) (split_0 a) \<le> 0) plan)"
proof -
  define sorted where "sorted = sortMigrationsInDescendingOrder localeCompare appliedMigrations"
  have set_sorted: "set sorted = set appliedMigrations"
    by (simp add: sorted_def sortMigrationsInDescendingOrder_def set_Array_sort)
  from assms obtain P where plan: "plan = filter P (map appliedToRevertMigration sorted)"
    unfolding migrationsToRevert_def Let_def sorted_def
    using determineMigrationsToRevert_Inr by blast
  have one: "set (map (\<lambda>f. replace f ''.revert.'' ''.apply.'') plan) \<subseteq> set appliedMigrations"
    if "\<forall>f\<in>set appliedMigrations. occurrences ''.revert.'' f = 0"
  proof
    fix g assume "g \<in> set (map (\<lambda>f. replace f ''.revert.'' ''.apply.'') plan)"
    then obtain f where f: "f \<in> set appliedMigrations"
      and g: "g = replace (appliedToRevertMigration f) ''.revert.'' ''.apply.''"
      using plan set_sorted by auto
    from that f have "occurrences ''.revert.'' f = 0" by blast
    then have "g = f" using g replace_roundtrip by (simp add: appliedToRevertMigration_def)
    with f show "g \<in> set appliedMigrations" by simp
  qed
  have two: "sorted_wrt (\<lambda>a b. localeCompare (split_0 b) (split_0 a) \<le> 0) plan"
    if c: "consistent localeCompare"
      and k: "\<forall>f\<in>set appliedMigrations. occurrences ''.apply.'' (split_0 f) = 0"
  proof -
    let ?D = "\<lambda>a b. localeCompare (split_0 b) (split_0 a) \<le> 0"
    have "sorted_wrt ?D sorted"
      unfolding sorted_def sortMigrationsInDescendingOrder_def Let_def
      using sorted_Array_sort [OF consistent_descending [OF c, of split_0]] by simp
    then have "sorted_wrt (\<lambda>a b. ?D (appliedToRevertMigration a) (appliedToRevertMigration b))
                 sorted"
      using k set_sorted
      by (auto simp: split_0_appliedToRevertMigration elim!: sorted_wrt_mono_rel [rotated])
    then have "sorted_wrt ?D (map appliedToRevertMigration sorted)"
      by (simp add: sorted_wrt_map)
    then show ?thesis unfolding plan by (rule sorted_wrt_filter)
  qed
  from one two show ?thesis by blast
qed

text \<open>The equations that evaluate \<open>Number\<close> on a literal string.\<close>

lemmas number_eval = Number_def NonDecimalIntegerLiteral_def StrUnsignedDecimalLiteral_def
  ExponentPart_def SignedInteger_def decimalValue_def roundToDouble_def floor_log2_def
  scale2_def pow2_def digitsValue_def isDigit_def digitValue_def trim_def isStrWhiteSpaceChar_def
  Let_def compute_floorlog

lemma down_plan_example:
  "migrationsToRevert codeUnitCompare
     [''20230922034401_create-users.apply.sql'',
      ''20230922034402_create-posts.apply.sql'',
      ''20230922034403_create-comments.apply.sql'']
     (Some ''20230922034402'')
   = Inr [''20230922034403_create-comments.revert.sql'',
          ''20230922034402_create-posts.revert.sql'']"
  by (simp add: migrationsToRevert_def sortMigrationsInDescendingOrder_def Array_sort_def
        codeUnitCompare_def split_0_def appliedToRevertMigration_def
        determineMigrationsToRevert_def endsWith_def suffix_to_prefix
        filterAfterOrAtTimestamp_def number_eval)

theorem C8_down_plan_witness:
  "migrationsToRevert codeUnitCompare
     [''20230922034401_create-users.apply.sql'',
      ''20230922034402_create-posts.apply.sql'',
      ''20230922034403_create-comments.apply.sql'']
     (Some ''20230922034402'')
   = Inr [''20230922034403_create-comments.revert.sql'',
          ''20230922034402_create-posts.revert.sql''] \<and>
   list_all (\<lambda>f. occurrences ''.revert.'' f = 0)
     [''20230922034401_create-users.apply.sql'',
      ''20230922034402_create-posts.apply.sql'',
      ''20230922034403_create-comments.apply.sql''] \<and>
   list_all (\<lambda>f. occurrences ''.apply.'' (split_0 f) = 0)
     [''20230922034401_create-users.apply.sql'',
      ''20230922034402_create-posts.apply.sql'',
      ''20230922034403_create-comments.apply.sql''] \<and>
   consistent codeUnitCompare \<and>
   set (map (\<lambda>f. replace f ''.revert.'' ''.apply.'')
          [''20230922034403_create-comments.revert.sql'',
           ''20230922034402_create-posts.revert.sql''])
     \<subseteq> set [''20230922034401_create-users.apply.sql'',
             ''20230922034402_create-posts.apply.sql'',
             ''20230922034403_create-comments.apply.sql''] \<and>
   sorted_wrt (\<lambda>a b. codeUnitCompare (split_0 b) (split_0 a) \<le> 0)
     [''20230922034403_create-comments.revert.sql'',
      ''20230922034402_create-posts.revert.sql'']"
  using C8_down_plan [OF down_plan_example] consistent_codeUnitCompare down_plan_example
  by (simp add: split_0_def)

text \<open>
  The claim as stated fails on both counts. With the applied filenames below, the plan
  has \<open>1_a.revert.b.revert.sql\<close>, which maps back to \<open>1_a.apply.b.revert.sql\<close>, not an
  applied filename; and the filenames without an underscore are their own keys, which the
  substitution changes, so that the plan's first two keys are in ascending order.
\<close>

theorem C8_counterexample:
  "migrationsToRevert codeUnitCompare
     [''a.apply.sql'', ''a.b.apply.sql'', ''1_a.revert.b.apply.sql''] None
   = Inr [''a.b.revert.sql'', ''a.revert.sql'', ''1_a.revert.b.revert.sql''] \<and>
   replace ''1_a.revert.b.revert.sql'' ''.revert.'' ''.apply.'' = ''1_a.apply.b.revert.sql'' \<and>
   ''1_a.apply.b.revert.sql''
     \<notin> set [''a.apply.sql'', ''a.b.apply.sql'', ''1_a.revert.b.apply.sql''] \<and>
   split_0 ''a.b.revert.sql'' = ''a.b.revert.sql'' \<and>
   split_0 ''a.revert.sql'' = ''a.revert.sql'' \<and>
   str_le ''a.b.revert.sql'' ''a.revert.sql'' \<and>
   \<not> str_le ''a.revert.sql'' ''a.b.revert.sql'' \<and>
   \<not> sorted_wrt (\<lambda>a b. codeUnitCompare (split_0 b) (split_0 a) \<le> 0)
         [''a.b.revert.sql'', ''a.revert.sql'', ''1_a.revert.b.revert.sql'']"
  by (simp add: migrationsToRevert_def sortMigrationsInDescendingOrder_def Array_sort_def
        codeUnitCompare_def split_0_def appliedToRevertMigration_def
        determineMigrationsToRevert_def endsWith_def suffix_to_prefix)

section \<open>Bootstrap\<close>

text \<open>The equations that run an asynchronous function.\<close>

lemmas io_eval = bind_def return_def throw_def try_catch_def server_def
  executeSQL_def executeInTransaction_def readMigrationContent_def

lemma handleSetup_Idle:
  "status w = Idle \<Longrightarrow>
   handleSetup Client w =
     (case migrations_table (committed w) of
        Some rows \<Rightarrow> (Inr (), w\<lparr>sent := sent w @ [SELECT_EXISTS_migrations]\<rparr>)
      | None \<Rightarrow>
          (Inr (), w\<lparr>sent := sent w @ [SELECT_EXISTS_migrations, BEGIN,
                                         CREATE_TABLE_migrations, COMMIT],
                     committed := (committed w)\<lparr>migrations_table := Some []\<rparr>\<rparr>))"
  by (simp add: handleSetup_def doesMigrationsTableExist_def createMigrationsTable_def
        io_eval split: option.splits)

lemma handleSetup_InTransaction:
  "status w = InTransaction t \<Longrightarrow>
   handleSetup Client w =
     (case migrations_table t of
        Some rows \<Rightarrow> (Inr (), w\<lparr>sent := sent w @ [SELECT_EXISTS_migrations]\<rparr>)
      | None \<Rightarrow>
          (Inr (), w\<lparr>sent := sent w @ [SELECT_EXISTS_migrations, BEGIN,
                                         CREATE_TABLE_migrations, COMMIT],
                     committed := t\<lparr>migrations_table := Some []\<rparr>,
                     status := Idle\<rparr>))"
  by (simp add: handleSetup_def doesMigrationsTableExist_def createMigrationsTable_def
        io_eval split: option.splits)

text \<open>
  C9. From any state of the database, on a connection that is not inside an aborted
  transaction block, \<open>handleSetup\<close> returns normally, and a second call right after it
  returns normally too and leaves the world as the first call left it, but for one more
  query in the log: the \<open>SELECT EXISTS\<close> of \<open>doesMigrationsTableExist\<close>. So the second
  call sends no \<open>CREATE TABLE\<close> and changes neither the bookkeeping table nor anything
  else in the database.
\<close>

theorem C9_setup_idempotent:
  "status w \<noteq> Aborted \<Longrightarrow>
     fst (handleSetup Client w) = Inr () \<and>
     handleSetup Client (snd (handleSetup Client w)) =
       (Inr (), (snd (handleSetup Client w))
                  \<lparr>sent := sent (snd (handleSetup Client w)) @ [SELECT_EXISTS_migrations]\<rparr>)"
proof (cases "status w")
  case Idle
  then show ?thesis
    by (cases "migrations_table (committed w)")
       (simp_all add: handleSetup_Idle)
next
  case (InTransaction t)
  then show ?thesis
    by (cases "migrations_table t")
       (simp_all add: handleSetup_InTransaction handleSetup_Idle)
next
  case Aborted
  moreover assume "status w \<noteq> Aborted"
  ultimately show ?thesis by simp
qed

theorem C9_setup_idempotent_witness:
  "status \<lparr>committed = \<lparr>relations = {}, migrations_table = None\<rparr>, status = Idle,
           sent = [], collation = codeUnitCompare, MIGRATIONS_DIR = []\<rparr> \<noteq> Aborted \<and>
   handleSetup Client
     \<lparr>committed = \<lparr>relations = {}, migrations_table = None\<rparr>, status = Idle,
      sent = [], collation = codeUnitCompare, MIGRATIONS_DIR = []\<rparr>
   = (Inr (),
      \<lparr>committed = \<lparr>relations = {}, migrations_table = Some []\<rparr>, status = Idle,
       sent = [SELECT_EXISTS_migrations, BEGIN, CREATE_TABLE_migrations, COMMIT],
       collation = codeUnitCompare, MIGRATIONS_DIR = []\<rparr>) \<and>
   handleSetup Client
     \<lparr>committed = \<lparr>relations = {}, migrations_table = Some []\<rparr>, status = Idle,
      sent = [SELECT_EXISTS_migrations, BEGIN, CREATE_TABLE_migrations, COMMIT],
      collation = codeUnitCompare, MIGRATIONS_DIR = []\<rparr>
   = (Inr (),
      \<lparr>committed = \<lparr>relations = {}, migrations_table = Some []\<rparr>, status = Idle,
       sent = [SELECT_EXISTS_migrations, BEGIN, CREATE_TABLE_migrations, COMMIT,
               SELECT_EXISTS_migrations],
       collation = codeUnitCompare, MIGRATIONS_DIR = []\<rparr>)"
  using C9_setup_idempotent
    [of "\<lparr>committed = \<lparr>relations = {}, migrations_table = None\<rparr>, status = Idle,
          sent = [], collation = codeUnitCompare, MIGRATIONS_DIR = []\<rparr>"]
  by (simp add: handleSetup_Idle)

section \<open>Atomicity of a unit\<close>

text \<open>
  C1 says that the SQL body of a unit and the insertion of its record are atomic
  together. The code does not achieve it: \<open>applyMigration\<close> opens a transaction block,
  but \<open>executeSQL\<close> sends its own \<open>BEGIN\<close> and \<open>COMMIT\<close> around each statement, and
  that \<open>COMMIT\<close> commits the block. Here the bookkeeping table is missing, so the insert
  fails: \<open>applyMigration\<close> throws, and the table \<open>users\<close> that the body created stays
  committed, without a record.
\<close>

theorem C1_schema_change_without_record:
  "applyMigration Client ''20230922034401_create-users.apply.sql''
     \<lparr>committed = \<lparr>relations = {}, migrations_table = None\<rparr>, status = Idle,
      sent = [], collation = codeUnitCompare,
      MIGRATIONS_DIR =
        [(''20230922034401_create-users.apply.sql'', CREATE_TABLE ''users''),
         (''20230922034401_create-users.revert.sql'', DROP_TABLE ''users'')]\<rparr>
   = (Inl SqlError,
      \<lparr>committed = \<lparr>relations = {''users''}, migrations_table = None\<rparr>, status = Idle,
       sent = [BEGIN, BEGIN, Sql (CREATE_TABLE ''users''), COMMIT,
               BEGIN, INSERT_INTO_migrations ''20230922034401_create-users.apply.sql'',
               ROLLBACK, ROLLBACK],
       collation = codeUnitCompare,
       MIGRATIONS_DIR =
        [(''20230922034401_create-users.apply.sql'', CREATE_TABLE ''users''),
         (''20230922034401_create-users.revert.sql'', DROP_TABLE ''users'')]\<rparr>)"
  by (simp add: applyMigration_def io_eval CREATE_TABLE_def)

text \<open>
  C2 says that the revert body and the deletion of the record run in one transaction.
  \<open>revertMigration\<close> runs each in a transaction of its own. Here the bookkeeping table
  is missing, so the deletion fails: \<open>revertMigration\<close> throws, and the table \<open>posts\<close>
  stays dropped.
\<close>

theorem C2_revert_without_unrecord:
  "revertMigration Client ''20230922034402_create-posts.revert.sql''
     \<lparr>committed = \<lparr>relations = {''posts''}, migrations_table = None\<rparr>, status = Idle,
      sent = [], collation = codeUnitCompare,
      MIGRATIONS_DIR =
        [(''20230922034402_create-posts.apply.sql'', CREATE_TABLE ''posts''),
         (''20230922034402_create-posts.revert.sql'', DROP_TABLE ''posts'')]\<rparr>
   = (Inl SqlError,
      \<lparr>committed = \<lparr>relations = {}, migrations_table = None\<rparr>, status = Idle,
       sent = [BEGIN, Sql (DROP_TABLE ''posts''), COMMIT,
               BEGIN, DELETE_FROM_migrations ''20230922034402_create-posts.apply.sql'',
               ROLLBACK],
       collation = codeUnitCompare,
       MIGRATIONS_DIR =
        [(''20230922034402_create-posts.apply.sql'', CREATE_TABLE ''posts''),
         (''20230922034402_create-posts.revert.sql'', DROP_TABLE ''posts'')]\<rparr>)"
  by (simp add: revertMigration_def io_eval DROP_TABLE_def endsWith_def suffix_to_prefix
        REVERT_MIGRATION_FILE_SUFFIX_def APPLY_MIGRATION_FILE_SUFFIX_def)

section \<open>The command \<open>down\<close>\<close>

text \<open>The equations that evaluate the down path.\<close>

lemmas down_eval = main_def getClient_def closeClient_def argument_def handleDown_def
  getAppliedMigrations_def migrationsToRevert_def sortMigrationsInDescendingOrder_def
  Array_sort_def codeUnitCompare_def split_0_def appliedToRevertMigration_def
  determineMigrationsToRevert_def endsWith_def suffix_to_prefix revertMigration_def
  REVERT_MIGRATION_FILE_SUFFIX_def APPLY_MIGRATION_FILE_SUFFIX_def DROP_TABLE_def
  filterAfterOrAtTimestamp_def

text \<open>
  C5 says that \<open>down\<close> with a boundary reverts only the applied units whose key is at
  or after the boundary. \<open>main\<close> calls \<open>handleDown(client)\<close> without the boundary it
  has read from the command line. Here three units are applied and the boundary is the key
  of the third: all three are reverted, and no record is left.
\<close>

theorem C5_down_ignores_boundary:
  "main codeUnitCompare handleGenerate [''down'', ''20230922034403'']
     \<lparr>committed = \<lparr>relations = {''users'', ''posts'', ''comments''},
                   migrations_table = Some [''20230922034401_create-users.apply.sql'',
                                            ''20230922034402_create-posts.apply.sql'',
                                            ''20230922034403_create-comments.apply.sql'']\<rparr>,
      status = Idle, sent = [], collation = codeUnitCompare,
      MIGRATIONS_DIR =
        [(''20230922034401_create-users.revert.sql'', DROP_TABLE ''users''),
         (''20230922034402_create-posts.revert.sql'', DROP_TABLE ''posts''),
         (''20230922034403_create-comments.revert.sql'', DROP_TABLE ''comments'')]\<rparr>
   = (Inr (),
     \<lparr>committed = \<lparr>relations = {}, migrations_table = Some []\<rparr>,
      status = Idle,
      sent = [SELECT_filename_FROM_migrations,
              BEGIN, Sql (DROP_TABLE ''comments''), COMMIT,
              BEGIN, DELETE_FROM_migrations ''20230922034403_create-comments.apply.sql'', COMMIT,
              BEGIN, Sql (DROP_TABLE ''posts''), COMMIT,
              BEGIN, DELETE_FROM_migrations ''20230922034402_create-posts.apply.sql'', COMMIT,
              BEGIN, Sql (DROP_TABLE ''users''), COMMIT,
              BEGIN, DELETE_FROM_migrations ''20230922034401_create-users.apply.sql'', COMMIT],
      collation = codeUnitCompare,
      MIGRATIONS_DIR =
        [(''20230922034401_create-users.revert.sql'', DROP_TABLE ''users''),
         (''20230922034402_create-posts.revert.sql'', DROP_TABLE ''posts''),
         (''20230922034403_create-comments.revert.sql'', DROP_TABLE ''comments'')]\<rparr>)"
  by (simp add: down_eval io_eval insert_Diff_if)

text \<open>Given the same boundary, \<open>handleDown\<close> itself reverts the third unit only.\<close>

lemma handleDown_with_boundary:
  "handleDown codeUnitCompare Client (Some ''20230922034403'')
     \<lparr>committed = \<lparr>relations = {''users'', ''posts'', ''comments''},
                   migrations_table = Some [''20230922034401_create-users.apply.sql'',
                                            ''20230922034402_create-posts.apply.sql'',
                                            ''20230922034403_create-comments.apply.sql'']\<rparr>,
      status = Idle, sent = [], collation = codeUnitCompare,
      MIGRATIONS_DIR =
        [(''20230922034401_create-users.revert.sql'', DROP_TABLE ''users''),
         (''20230922034402_create-posts.revert.sql'', DROP_TABLE ''posts''),
         (''20230922034403_create-comments.revert.sql'', DROP_TABLE ''comments'')]\<rparr>
   = (Inr (),
     \<lparr>committed = \<lparr>relations = {''users'', ''posts''},
                   migrations_table = Some [''20230922034401_create-users.apply.sql'',
                                            ''20230922034402_create-posts.apply.sql'']\<rparr>,
      status = Idle,
      sent = [SELECT_filename_FROM_migrations,
              BEGIN, Sql (DROP_TABLE ''comments''), COMMIT,
              BEGIN, DELETE_FROM_migrations ''20230922034403_create-comments.apply.sql'', COMMIT],
      collation = codeUnitCompare,
      MIGRATIONS_DIR =
        [(''20230922034401_create-users.revert.sql'', DROP_TABLE ''users''),
         (''20230922034402_create-posts.revert.sql'', DROP_TABLE ''posts''),
         (''20230922034403_create-comments.revert.sql'', DROP_TABLE ''comments'')]\<rparr>)"
  by (simp add: down_eval io_eval number_eval insert_Diff_if)

section \<open>Facts about \<open>Number\<close> on digit strings\<close>

lemma floor_log2_nat:
  assumes "0 < n"
  shows "floor_log2 n (Suc 0) = int (floorlog 2 n) - 1"
proof -
  have "1 \<le> floorlog 2 n" using assms by (intro floorlog_geI) simp_all
  then have L: "0 < floorlog 2 n" by simp
  have one: "floorlog 2 (Suc 0) = Suc 0"
    by (subst compute_floorlog) (simp add: floorlog_eq_zero_iff)
  have "2 ^ (floorlog 2 n - 1) \<le> n" using floorlog_bounds [of n 2] assms by simp
  moreover have "nat (int (floorlog 2 n) - 1) = floorlog 2 n - 1" by simp
  ultimately show ?thesis using L
    by (simp add: floor_log2_def scale2_def one Let_def)
qed

lemma roundToDouble_exact:
  assumes "n < 2 ^ 53"
  shows "roundToDouble n 1 = Fin (of_nat n)"
proof (cases "n = 0")
  case True
  then show ?thesis by (simp add: roundToDouble_def)
next
  case False
  define L where "L = floorlog 2 n"
  define j where "j = 53 - L"
  have n: "0 < n" using False by simp
  have L53: "L \<le> 53" unfolding L_def using assms by (intro floorlog_leI) simp_all
  have L1: "1 \<le> L" unfolding L_def using n by (intro floorlog_geI) simp_all
  have nL: "n < 2 ^ L" unfolding L_def using floorlog_bounds [of n 2] n by simp
  have fl: "floor_log2 n (Suc 0) = int L - 1" unfolding L_def by (rule floor_log2_nat [OF n])
  have k: "max (floor_log2 n (Suc 0) - 52) (- 1074) = - int j"
    using L53 L1 by (simp add: fl j_def)
  have sc: "scale2 n (Suc 0) (- int j) = (n * 2 ^ j, Suc 0)"
    by (cases "j = 0") (simp_all add: scale2_def)
  have "n * 2 ^ j < 2 ^ L * 2 ^ j" using nL by simp
  also have "\<dots> = 2 ^ 53" using L53 by (simp add: j_def flip: power_add)
  finally have "floorlog 2 (n * 2 ^ j) \<le> 53" by (intro floorlog_leI) simp_all
  then have no: "\<not> 1024 < int (floorlog 2 (n * 2 ^ j)) + - int j" by simp
  have val: "(of_nat n :: rat) * 2 ^ j * pow2 (- int j) = of_nat n"
    by (cases "j = 0") (simp_all add: pow2_def)
  show ?thesis
    using False no val by (simp add: roundToDouble_def k sc Let_def)
qed

lemma isDigit_10_iff: "isDigit 10 c \<longleftrightarrow> 48 \<le> (of_char c :: nat) \<and> (of_char c :: nat) \<le> 57"
  by (auto simp: isDigit_def digitValue_def Let_def)

lemma digit_not_space: "isDigit 10 c \<Longrightarrow> \<not> isStrWhiteSpaceChar c"
  by (auto simp: isDigit_10_iff isStrWhiteSpaceChar_def)

lemma trim_digits: "list_all (isDigit 10) k \<Longrightarrow> trim k = k"
proof -
  assume d: "list_all (isDigit 10) k"
  then have "dropWhile isStrWhiteSpaceChar k = k"
    by (cases k) (auto simp: digit_not_space)
  moreover from d have "dropWhile isStrWhiteSpaceChar (rev k) = rev k"
    by (cases "rev k") (auto simp: digit_not_space list_all_iff dest: arg_cong [where f = set])
  ultimately show ?thesis by (simp add: trim_def)
qed

lemma digits_no_prefix:
  "list_all (isDigit 10) k \<Longrightarrow> \<not> list_all (isDigit 10) p \<Longrightarrow> \<not> prefix p k"
  by (auto simp: prefix_def)

lemma Number_digits:
  assumes "list_all (isDigit 10) k" "k \<noteq> []"
  shows "Number k = roundToDouble (digitsValue 10 k) 1"
proof -
  have p: "\<not> prefix ''0x'' k" "\<not> prefix ''0X'' k" "\<not> prefix ''0o'' k" "\<not> prefix ''0O'' k"
    "\<not> prefix ''0b'' k" "\<not> prefix ''0B'' k" "\<not> prefix ''-'' k" "\<not> prefix ''+'' k"
    "\<not> prefix ''Infinity'' k"
    by (rule digits_no_prefix [OF assms(1)], simp add: isDigit_def digitValue_def)+
  from p(9) have inf: "k \<noteq> ''Infinity''" by auto
  have tw: "takeWhile (isDigit 10) k = k" "dropWhile (isDigit 10) k = []"
    using assms(1) by (simp_all add: list_all_iff)
  have "StrUnsignedDecimalLiteral k = roundToDouble (digitsValue 10 k) 1"
    using assms(2) inf
    by (simp add: StrUnsignedDecimalLiteral_def tw ExponentPart_def decimalValue_def)
  then show ?thesis
    using assms(2) p by (simp add: Number_def trim_digits [OF assms(1)])
qed


lemma digitsValue_foldl:
  "foldl (\<lambda>n c. 10 * n + (case digitValue c of None \<Rightarrow> 0 | Some v \<Rightarrow> v)) acc s
   = acc * 10 ^ length s + digitsValue 10 s"
proof (induction s arbitrary: acc)
  case Nil
  then show ?case by (simp add: digitsValue_def)
next
  case (Cons c s)
  show ?case
    using Cons.IH [of "10 * acc + (case digitValue c of None \<Rightarrow> 0 | Some v \<Rightarrow> v)"]
      Cons.IH [of "case digitValue c of None \<Rightarrow> 0 | Some v \<Rightarrow> v"]
    by (simp add: digitsValue_def algebra_simps)
qed

lemma digitsValue_Cons:
  "digitsValue 10 (c # s)
   = (case digitValue c of None \<Rightarrow> 0 | Some v \<Rightarrow> v) * 10 ^ length s + digitsValue 10 s"
  using digitsValue_foldl [of "case digitValue c of None \<Rightarrow> 0 | Some v \<Rightarrow> v" s]
  by (simp add: digitsValue_def)

lemma digit_value:
  "isDigit 10 c \<Longrightarrow> digitValue c = Some (of_char c - 48) \<and> (of_char c :: nat) - 48 < 10"
  by (auto simp: isDigit_def digitValue_def Let_def split: if_splits)

lemma digitsValue_less:
  "list_all (isDigit 10) s \<Longrightarrow> digitsValue 10 s < 10 ^ length s"
proof (induction s)
  case Nil
  then show ?case by (simp add: digitsValue_def)
next
  case (Cons c s)
  define P :: nat where "P = 10 ^ length s"
  define d :: nat where "d = of_char c - 48"
  from Cons have v: "digitsValue 10 s < P" and c: "d < 10"
    and dv: "digitValue c = Some d"
    using digit_value [of c] by (simp_all add: P_def d_def)
  from c have le: "d * P \<le> 9 * P" by (intro mult_right_mono) simp_all
  from le v have "d * P + digitsValue 10 s < 10 * P" by linarith
  then show ?case by (simp add: digitsValue_Cons dv P_def)
qed

lemma digits_compare:
  assumes "length b = length a"
  shows "list_all (isDigit 10) b \<Longrightarrow> list_all (isDigit 10) a \<Longrightarrow>
         digitsValue 10 b \<le> digitsValue 10 a \<longleftrightarrow> str_le b a"
  using assms
proof (induction b a rule: list_induct2)
  case Nil
  then show ?case by simp
next
  case (Cons y b x a)
  define P :: nat where "P = 10 ^ length a"
  define dy :: nat where "dy = of_char y - 48"
  define dx :: nat where "dx = of_char x - 48"
  from Cons.prems have y: "isDigit 10 y" and x: "isDigit 10 x"
    and db: "list_all (isDigit 10) b" and da: "list_all (isDigit 10) a"
    by simp_all
  have vb: "digitsValue 10 b < P" using digitsValue_less [OF db] Cons.hyps by (simp add: P_def)
  have va: "digitsValue 10 a < P" using digitsValue_less [OF da] by (simp add: P_def)
  have Vy: "digitsValue 10 (y # b) = dy * P + digitsValue 10 b"
    using digit_value [OF y] Cons.hyps by (simp add: digitsValue_Cons P_def dy_def)
  have Vx: "digitsValue 10 (x # a) = dx * P + digitsValue 10 a"
    using digit_value [OF x] by (simp add: digitsValue_Cons P_def dx_def)
  have IH: "digitsValue 10 b \<le> digitsValue 10 a \<longleftrightarrow> str_le b a"
    using Cons.IH db da by simp
  have ord: "(of_char y :: nat) < of_char x \<longleftrightarrow> dy < dx"
    using x y by (auto simp: isDigit_10_iff dy_def dx_def)
  have eq: "y = x \<longleftrightarrow> dy = dx"
  proof
    assume "dy = dx"
    moreover have "48 \<le> (of_char y :: nat)" "48 \<le> (of_char x :: nat)"
      using x y by (simp_all add: isDigit_10_iff)
    ultimately have "(of_char y :: nat) = of_char x"
      unfolding dy_def dx_def by arith
    then show "y = x" by simp
  qed (simp add: dy_def dx_def)
  show ?case
  proof (cases "y = x")
    case True
    with eq have "dy = dx" by simp
    with True IH show ?thesis unfolding Vy Vx by simp
  next
    case False
    with eq have ne: "dy \<noteq> dx" by simp
    show ?thesis
    proof (cases "dy < dx")
      case True
      then have "(dy + 1) * P \<le> dx * P" by (intro mult_right_mono) simp_all
      with vb have "dy * P + digitsValue 10 b \<le> dx * P + digitsValue 10 a"
        by (simp add: algebra_simps)
      with False True ord show ?thesis unfolding Vy Vx by simp
    next
      case gt: False
      with ne have "dx < dy" by simp
      then have "(dx + 1) * P \<le> dy * P" by (intro mult_right_mono) simp_all
      with va have "dx * P + digitsValue 10 a < dy * P + digitsValue 10 b"
        by (simp add: algebra_simps)
      with False gt ord show ?thesis unfolding Vy Vx by simp
    qed
  qed
qed

lemma Number_digits_exact:
  assumes "list_all (isDigit 10) k" "k \<noteq> []" "digitsValue 10 k < 2 ^ 53"
  shows "Number k = Fin (of_nat (digitsValue 10 k))"
  using Number_digits [OF assms(1,2)] roundToDouble_exact [OF assms(3)] by simp

lemma digits_15_exact:
  assumes "list_all (isDigit 10) k" "length k \<le> 15"
  shows "digitsValue 10 k < 2 ^ 53"
proof -
  have "digitsValue 10 k < 10 ^ length k" by (rule digitsValue_less [OF assms(1)])
  also have "\<dots> \<le> (10::nat) ^ 15" using assms(2) by (intro power_increasing) simp_all
  also have "\<dots> < 2 ^ 53" by simp
  finally show ?thesis .
qed

lemma filterAfterOrAtTimestamp_exact:
  assumes "list_all (isDigit 10) (split_0 f)" "split_0 f \<noteq> []"
    and "digitsValue 10 (split_0 f) < 2 ^ 53"
    and "list_all (isDigit 10) b" "b \<noteq> []" "digitsValue 10 b < 2 ^ 53"
  shows "filterAfterOrAtTimestamp f b \<longleftrightarrow> digitsValue 10 b \<le> digitsValue 10 (split_0 f)"
  using Number_digits_exact [OF assms(1-3)] Number_digits_exact [OF assms(4-6)]
  by (simp add: filterAfterOrAtTimestamp_def)

section \<open>The boundary of the down plan\<close>

text \<open>
  C6, as amended. Take a list of filenames ending with \<open>.revert.sql\<close> and a non-empty
  boundary, where the boundary and every timestamp key are non-empty digit strings whose
  value is below \<open>2^53\<close>, the numbers that \<open>Number\<close> represents exactly (every digit
  string of at most 15 digits is one, as the generated 14-digit keys are). Then
  \<open>determineMigrationsToRevert\<close> retains exactly the filenames whose key is \<open>\<ge>\<close> the
  boundary as a number: the comparison is numeric, not a comparison of strings. The two
  agree when every key has the length of the boundary.
\<close>

theorem C6_boundary_is_numeric:
  assumes "b \<noteq> []"
    and "list_all (\<lambda>f. endsWith f ''.revert.sql'') revertMigrations"
    and "list_all (isDigit 10) b" and "digitsValue 10 b < 2 ^ 53"
    and "\<forall>f\<in>set revertMigrations.
           split_0 f \<noteq> [] \<and> list_all (isDigit 10) (split_0 f) \<and>
           digitsValue 10 (split_0 f) < 2 ^ 53"
  shows
    "determineMigrationsToRevert revertMigrations (Some b)
       = Inr (filter (\<lambda>f. digitsValue 10 b \<le> digitsValue 10 (split_0 f)) revertMigrations) \<and>
     ((\<forall>f\<in>set revertMigrations. length (split_0 f) = length b) \<longrightarrow>
        determineMigrationsToRevert revertMigrations (Some b)
          = Inr (filter (\<lambda>f. str_le b (split_0 f)) revertMigrations))"
proof -
  have 1: "determineMigrationsToRevert revertMigrations (Some b)
       = Inr (filter (\<lambda>f. filterAfterOrAtTimestamp f b) revertMigrations)"
    using assms(1,2) by (simp add: determineMigrationsToRevert_def)
  have 2: "filter (\<lambda>f. filterAfterOrAtTimestamp f b) revertMigrations
           = filter (\<lambda>f. digitsValue 10 b \<le> digitsValue 10 (split_0 f)) revertMigrations"
    using assms(1,3,4,5)
    by (intro filter_cong refl filterAfterOrAtTimestamp_exact) auto
  have 3: "filter (\<lambda>f. digitsValue 10 b \<le> digitsValue 10 (split_0 f)) revertMigrations
           = filter (\<lambda>f. str_le b (split_0 f)) revertMigrations"
    if "\<forall>f\<in>set revertMigrations. length (split_0 f) = length b"
    using that assms(3,5)
    by (intro filter_cong refl digits_compare) auto
  from 1 2 3 show ?thesis by simp
qed

theorem C6_boundary_is_numeric_witness:
  "''20230922034402'' \<noteq> [] \<and>
   list_all (\<lambda>f. endsWith f ''.revert.sql'')
     [''20230922034403_create-comments.revert.sql'',
      ''20230922034402_create-posts.revert.sql'',
      ''20230922034401_create-users.revert.sql''] \<and>
   list_all (isDigit 10) ''20230922034402'' \<and>
   digitsValue 10 ''20230922034402'' < 2 ^ 53 \<and>
   list_all (\<lambda>f. split_0 f \<noteq> [] \<and> list_all (isDigit 10) (split_0 f) \<and>
                    digitsValue 10 (split_0 f) < 2 ^ 53 \<and>
                    length (split_0 f) = length ''20230922034402'')
     [''20230922034403_create-comments.revert.sql'',
      ''20230922034402_create-posts.revert.sql'',
      ''20230922034401_create-users.revert.sql''] \<and>
   determineMigrationsToRevert
     [''20230922034403_create-comments.revert.sql'',
      ''20230922034402_create-posts.revert.sql'',
      ''20230922034401_create-users.revert.sql'']
     (Some ''20230922034402'')
   = Inr [''20230922034403_create-comments.revert.sql'',
          ''20230922034402_create-posts.revert.sql''] \<and>
   filter (\<lambda>f. str_le ''20230922034402'' (split_0 f))
     [''20230922034403_create-comments.revert.sql'',
      ''20230922034402_create-posts.revert.sql'',
      ''20230922034401_create-users.revert.sql'']
   = [''20230922034403_create-comments.revert.sql'',
      ''20230922034402_create-posts.revert.sql'']"
  using C6_boundary_is_numeric
    [of "''20230922034402''"
        "[''20230922034403_create-comments.revert.sql'',
          ''20230922034402_create-posts.revert.sql'',
          ''20230922034401_create-users.revert.sql'']"]
  by (simp add: endsWith_def suffix_to_prefix split_0_def digitsValue_def isDigit_def
        digitValue_def)

text \<open>
  The claim as stated, a comparison of strings, fails: the key \<open>9\<close> is above the boundary
  \<open>10\<close> as a string and below it as a number, and the filename is dropped.
\<close>

theorem C6_counterexample:
  "determineMigrationsToRevert [''9_a.revert.sql''] (Some ''10'') = Inr [] \<and>
   split_0 ''9_a.revert.sql'' = ''9'' \<and>
   str_le ''10'' ''9''"
  by (simp add: determineMigrationsToRevert_def endsWith_def suffix_to_prefix split_0_def
        filterAfterOrAtTimestamp_def number_eval)

text \<open>
  Beyond \<open>2^53\<close> the conversion rounds, which the statement above leaves out. The
  17-digit keys of the repository's test files are there: \<open>20230922034400001\<close> and
  \<open>20230922034400002\<close> both become \<open>20230922034400000\<close>, so with the second as the
  boundary the first is kept, against the docstring of \<open>filterAfterOrAtTimestamp\<close>
  (only migrations at or after the given timestamp), and unlike the comparison of strings
  in \<open>filterBeforeOrAtTimestamp\<close>, which is exact on these keys.
\<close>

lemma filterAfterOrAtTimestamp_rounds:
  "Number ''20230922034400001'' = Fin 20230922034400000 \<and>
   Number ''20230922034400002'' = Fin 20230922034400000 \<and>
   filterAfterOrAtTimestamp ''20230922034400001_create_users_table.revert.sql''
     ''20230922034400002'' \<and>
   \<not> filterBeforeOrAtTimestamp ''20230922034400002_create_posts_table.apply.sql''
        ''20230922034400001''"
  by (simp add: filterAfterOrAtTimestamp_def filterBeforeOrAtTimestamp_def split_0_def
        number_eval)

end
